theory Spec2Isabelle
  imports Complex_Main "HOL-Library.Word" "HOL-Library.Multiset" "HOL-Library.Sublist"
begin

section \<open>Values shared by all rule engines\<close>

text \<open>
  The engines are Python scripts over pandas data frames. A data frame is modelled as the
  list of its rows in index order, a row as a record of the columns the engine reads.
  Floating-point cells are modelled as real numbers; a cell that pandas reports as missing
  (NaN, None) is \<open>Null\<close>, a cell holding text that is not a number is \<open>Text\<close>.
\<close>

datatype cell = Num real | Text string | Null

datatype error = ValueError | NameError string



text \<open>\<open>pd.to_numeric(x, errors='coerce')\<close>: a number, or NaN (here \<open>None\<close>) for anything
  that is missing or does not parse.\<close>

fun to_numeric :: "cell \<Rightarrow> real option" where
  "to_numeric (Num x) = Some x"
| "to_numeric (Text t) = None"
| "to_numeric Null = None"

text \<open>\<open>int(x)\<close> on a float truncates towards zero.\<close>

definition py_int :: "real \<Rightarrow> int" where
  "py_int x = (if 0 \<le> x then \<lfloor>x\<rfloor> else \<lceil>x\<rceil>)"

subsection \<open>Strings\<close>

text \<open>The lower-case and the upper-case form of a character: the 26 ASCII letters change,
  every other character stays.\<close>

definition lower_char :: "char \<Rightarrow> char" where
  "lower_char c =
     (case map_of (zip ''ABCDEFGHIJKLMNOPQRSTUVWXYZ'' ''abcdefghijklmnopqrstuvwxyz'') c of
        Some l \<Rightarrow> l | None \<Rightarrow> c)"


text \<open>\<open>s.lower()\<close> and \<open>s.upper()\<close> on ASCII text.\<close>

definition str_lower :: "string \<Rightarrow> string" where
  "str_lower s = map lower_char s"


text \<open>\<open>k in s\<close> for strings: \<open>k\<close> occurs in \<open>s\<close> as a contiguous substring.\<close>

fun str_in :: "string \<Rightarrow> string \<Rightarrow> bool" where
  "str_in k [] = (k = [])"
| "str_in k (c # cs) = (prefix k (c # cs) \<or> str_in k cs)"

text \<open>\<open>any(keyword in s for keyword in keywords)\<close>.\<close>

definition any_keyword_in :: "string list \<Rightarrow> string \<Rightarrow> bool" where
  "any_keyword_in keywords s = list_ex (\<lambda>keyword. str_in keyword s) keywords"

text \<open>\<open>sep.join(xs)\<close>.\<close>

fun join :: "string \<Rightarrow> string list \<Rightarrow> string" where
  "join sep [] = []"
| "join sep [x] = x"
| "join sep (x # y # ys) = x @ sep @ join sep (y # ys)"

subsection \<open>Alert titles\<close>

text \<open>
  Every alert title is a Python f-string. It is kept as the sequence of its parts, the
  literal text and the formatted fields, in the order of the source; the rendering of a
  number to decimal digits is not modelled.
\<close>

datatype piece =
    Lit string      \<comment> \<open>literal text, or a value that is already a string\<close>
  | Pct2 real       \<comment> \<open>\<open>{x:.2%}\<close>\<close>
  | Fix1 real       \<comment> \<open>\<open>{x:.1f}\<close>\<close>
  | Fix2 real       \<comment> \<open>\<open>{x:.2f}\<close>\<close>
  | Flt real        \<comment> \<open>\<open>{x}\<close> for a float\<close>
  | IntP int        \<comment> \<open>\<open>{n}\<close> for an integer, as in \<open>{int(x)}\<close>\<close>
  | Titled string   \<comment> \<open>\<open>{s.title()}\<close>\<close>

type_synonym fstring = "piece list"

section \<open>The alert log\<close>

text \<open>An instant (\<open>pd.Timestamp\<close>), in seconds since the epoch. \<open>pd.to_datetime(...,
  errors='coerce')\<close> gives an instant, or NaT (here \<open>None\<close>).\<close>

type_synonym instant = real

record alert =
  alert_id :: string
  alert_title :: fstring
  category :: string
  severity :: string
  timestamp :: instant

text \<open>
  The outside world of an engine run: the random UUIDs that \<open>uuid.uuid4()\<close> returns and
  the clock that \<open>pd.Timestamp.now()\<close> reads. Both are functions of the number of
  \<open>log_alert\<close> calls made so far, which the run state counts in \<open>draws\<close>.
\<close>

type_synonym byte = "8 word"

record env =
  uuid4 :: "nat \<Rightarrow> byte list"
  now :: "nat \<Rightarrow> instant"

subsection \<open>Alert identifiers\<close>

definition urlsafe_alphabet :: string where
  "urlsafe_alphabet = ''ABCDEFGHIJKLMNOPQRSTUVWXYZabcdefghijklmnopqrstuvwxyz0123456789-_''"

definition b64_digit :: "nat \<Rightarrow> char" where
  "b64_digit i = urlsafe_alphabet ! (i mod 64)"

text \<open>\<open>base64.urlsafe_b64encode\<close>: three bytes give four digits of six bits each; a last
  group of one or two bytes is padded with \<open>=\<close>.\<close>

fun urlsafe_b64encode :: "byte list \<Rightarrow> string" where
  "urlsafe_b64encode [] = []"
| "urlsafe_b64encode [a] =
     [b64_digit (unat a div 4), b64_digit (unat a mod 4 * 16), CHR ''='', CHR ''='']"
| "urlsafe_b64encode [a, b] =
     [b64_digit (unat a div 4), b64_digit (unat a mod 4 * 16 + unat b div 16),
      b64_digit (unat b mod 16 * 4), CHR ''='']"
| "urlsafe_b64encode (a # b # c # rest) =
     [b64_digit (unat a div 4), b64_digit (unat a mod 4 * 16 + unat b div 16),
      b64_digit (unat b mod 16 * 4 + unat c div 64), b64_digit (unat c mod 64)]
     @ urlsafe_b64encode rest"

text \<open>\<open>s.rstrip('=')\<close>.\<close>

definition rstrip_eq :: "string \<Rightarrow> string" where
  "rstrip_eq s = rev (dropWhile (\<lambda>c. c = CHR ''='') (rev s))"

text \<open>\<open>generate_alert_id()\<close>, as a function of the bytes of the UUID drawn.\<close>

definition generate_alert_id :: "byte list \<Rightarrow> string" where
  "generate_alert_id full_uuid = rstrip_eq (urlsafe_b64encode full_uuid)"

subsection \<open>Appending to the log\<close>

text \<open>\<open>log_alert(alerts_df, alert_title, category, severity)\<close>; \<open>n\<close> is the number of
  earlier calls in the run.\<close>

definition log_alert ::
  "env \<Rightarrow> nat \<Rightarrow> alert list \<Rightarrow> fstring \<Rightarrow> string \<Rightarrow> string \<Rightarrow> alert list \<times> string" where
  "log_alert e n alerts_df title cat sev =
     (let aid = generate_alert_id (uuid4 e n);
          new_alert = [\<lparr>alert_id = aid, alert_title = title, category = cat,
                        severity = sev, timestamp = now e n\<rparr>]
      in (if alerts_df = [] then new_alert else alerts_df @ new_alert, aid))"

text \<open>A sequence of \<open>log_alert\<close> calls, each on the log the previous one returned.\<close>

fun log_alerts ::
  "env \<Rightarrow> nat \<Rightarrow> alert list \<Rightarrow> (fstring \<times> string \<times> string) list \<Rightarrow> alert list" where
  "log_alerts e n alerts_df [] = alerts_df"
| "log_alerts e n alerts_df ((title, cat, sev) # reqs) =
     log_alerts e (Suc n) (fst (log_alert e n alerts_df title cat sev)) reqs"

text \<open>The record that the \<open>n\<close>-th call of a run builds.\<close>

definition new_record :: "env \<Rightarrow> nat \<Rightarrow> fstring \<times> string \<times> string \<Rightarrow> alert" where
  "new_record e n req =
     (case req of (title, cat, sev) \<Rightarrow>
        \<lparr>alert_id = generate_alert_id (uuid4 e n), alert_title = title, category = cat,
         severity = sev, timestamp = now e n\<rparr>)"

section \<open>The state of an engine run\<close>

text \<open>
  The variables that every rule engine updates while it iterates over the rows:
  the alert log, the identifiers generated for the current row, and the counter that the
  engine prints at the end. \<open>draws\<close> counts the \<open>log_alert\<close> calls made so far.
\<close>

record run_state =
  alerts_df :: "alert list"
  current_alerts_for_row :: "string list"
  alerts_generated_count :: nat
  draws :: nat

text \<open>
  The three statements that follow the choice of a title and a severity in every rule:
  \<^verbatim>\<open>alerts_df, new_alert_id = log_alert(alerts_df, alert_title, category, severity)\<close>,
  \<^verbatim>\<open>current_alerts_for_row.append(new_alert_id)\<close>,
  \<^verbatim>\<open>alerts_generated_count += 1\<close>.
\<close>

definition raise_alert :: "env \<Rightarrow> fstring \<Rightarrow> string \<Rightarrow> string \<Rightarrow> run_state \<Rightarrow> run_state" where
  "raise_alert e title cat sev s =
     (case log_alert e (draws s) (alerts_df s) title cat sev of
        (df, new_alert_id) \<Rightarrow>
          s\<lparr>alerts_df := df,
            current_alerts_for_row := current_alerts_for_row s @ [new_alert_id],
            alerts_generated_count := alerts_generated_count s + 1,
            draws := draws s + 1\<rparr>)"

text \<open>The value written to the row's \<open>alert_id\<close> column at the end of the loop body.\<close>

definition link_alert_ids :: "string list \<Rightarrow> string option" where
  "link_alert_ids ids = (if ids = [] then None else Some (join '','' ids))"

definition start_run :: "alert list \<Rightarrow> run_state" where
  "start_run df = \<lparr>alerts_df = df, current_alerts_for_row = [],
                   alerts_generated_count = 0, draws = 0\<rparr>"

text \<open>The records a piece of the run appended: those beyond the log it started from.\<close>

definition appended :: "run_state \<Rightarrow> run_state \<Rightarrow> alert list" where
  "appended s s' = drop (length (alerts_df s)) (alerts_df s')"

text \<open>Sequencing of steps that may raise.\<close>

definition and_then :: "error + 'a \<Rightarrow> ('a \<Rightarrow> error + 'b) \<Rightarrow> error + 'b" where
  "and_then r f = (case r of Inl err \<Rightarrow> Inl err | Inr x \<Rightarrow> f x)"

section \<open>The e-commerce engine\<close>
















section \<open>The supplier engine\<close>














section \<open>The logistics engine\<close>





text \<open>\<open>pd.notna(a) and pd.notna(b) and a > b\<close> on instants.\<close>

definition is_after :: "instant option \<Rightarrow> instant option \<Rightarrow> bool" where
  "is_after a b = (case a of None \<Rightarrow> False
                   | Some x \<Rightarrow> (case b of None \<Rightarrow> False | Some y \<Rightarrow> x > y))"














section \<open>The inventory engine\<close>




















section \<open>The local news engine\<close>

definition POP_CRITICAL_THRESHOLD :: real where
  [simp]: "POP_CRITICAL_THRESHOLD = 5000000"
definition POP_MEDIUM_THRESHOLD :: real where
  [simp]: "POP_MEDIUM_THRESHOLD = 500000"
definition POP_LOW_THRESHOLD :: real where
  [simp]: "POP_LOW_THRESHOLD = 50000"

definition WEATHER_CRITICAL_KEYWORDS :: "string list" where
  "WEATHER_CRITICAL_KEYWORDS =
     [''cyclone'', ''tornado'', ''hurricane'', ''blizzard'', ''flood'', ''severe thunderstorm'',
      ''landslide'']"
definition WEATHER_MEDIUM_KEYWORDS :: "string list" where
  "WEATHER_MEDIUM_KEYWORDS =
     [''heavy rain'', ''snow storm'', ''flash flood'', ''heatwave'', ''dense fog'',
      ''thunderstorm'']"
definition WEATHER_LOW_KEYWORDS :: "string list" where
  "WEATHER_LOW_KEYWORDS = [''rain'', ''light snow'', ''wind advisory'', ''drizzle'']"

definition ROAD_CRITICAL_KEYWORDS :: "string list" where
  "ROAD_CRITICAL_KEYWORDS =
     [''major highway closure'', ''airport closure'', ''port strike'', ''trucking strike'',
      ''bridge collapse'', ''total closure'']"
definition ROAD_MEDIUM_KEYWORDS :: "string list" where
  "ROAD_MEDIUM_KEYWORDS =
     [''street closure'', ''traffic disruption'', ''construction delay'', ''partial closure'']"

definition PUBLIC_SAFETY_KEYWORDS :: "string list" where
  "PUBLIC_SAFETY_KEYWORDS =
     [''evacuation'', ''lockdown'', ''riot'', ''protest'', ''bomb threat'', ''natural disaster'',
      ''emergency'']"

text \<open>
  A row of \<open>local_news.csv\<close>. The text columns hold the cell as \<open>str\<close> renders it, the
  two date columns what \<open>pd.to_datetime(..., errors='coerce')\<close> returns for the cell.
\<close>

record local_news_row =
  ln_event_id :: string
  ln_event_type :: string
  ln_region_id :: string
  ln_impact_level :: string
  ln_description :: string
  ln_affected_population_estimate :: cell
  ln_route_affected :: string
  ln_event_start_date :: "instant option"
  ln_event_end_date :: "instant option"
  ln_alert_id :: "string option"

definition alert_title_base :: "local_news_row \<Rightarrow> fstring" where
  "alert_title_base row =
     [Titled (str_lower (ln_event_type row)), Lit '' in '', Lit (ln_region_id row)]"

text \<open>The severity derived from the \<open>impact_level\<close> column.\<close>

definition default_severity :: "local_news_row \<Rightarrow> string" where
  "default_severity row =
     (let impact_level_csv = str_lower (ln_impact_level row)
      in if impact_level_csv = ''high'' then ''Medium''
         else if impact_level_csv = ''medium'' then ''Low''
         else if impact_level_csv = ''critical'' then ''Critical''
         else ''Low'')"

text \<open>\<open>pd.notna(affected_population_estimate) and affected_population_estimate >= t\<close>.\<close>

definition population_at_least :: "local_news_row \<Rightarrow> real \<Rightarrow> bool" where
  "population_at_least row t =
     (case to_numeric (ln_affected_population_estimate row) of
        None \<Rightarrow> False | Some affected_population_estimate \<Rightarrow> affected_population_estimate \<ge> t)"

text \<open>Rule 2: weather alerts.\<close>

definition rule_weather_alert :: "env \<Rightarrow> local_news_row \<Rightarrow> run_state \<Rightarrow> run_state" where
  "rule_weather_alert e row s =
     (let event_type = str_lower (ln_event_type row);
          description = str_lower (ln_description row);
          sev = default_severity row
      in if str_in ''weather alert'' event_type then
           (let final_severity =
                  (if any_keyword_in WEATHER_CRITICAL_KEYWORDS description
                      \<or> population_at_least row POP_CRITICAL_THRESHOLD then ''Critical''
                   else if any_keyword_in WEATHER_MEDIUM_KEYWORDS description
                      \<or> population_at_least row POP_MEDIUM_THRESHOLD then
                     (if sev \<noteq> ''Critical'' then ''Medium'' else sev)
                   else if any_keyword_in WEATHER_LOW_KEYWORDS description
                      \<or> population_at_least row POP_LOW_THRESHOLD then
                     (if sev \<notin> set [''Critical'', ''Medium''] then ''Low'' else sev)
                   else sev)
            in if final_severity \<in> set [''Critical'', ''Medium'', ''Low''] then
                 raise_alert e
                   ([Lit final_severity, Lit '' Weather Alert: ''] @ alert_title_base row
                     @ [Lit '' ('', Lit description, Lit '')''])
                   ''Local News/Events'' final_severity s
               else s)
         else s)"

text \<open>Rule 3: road closures and logistics impacts.\<close>

definition rule_road_closure :: "env \<Rightarrow> local_news_row \<Rightarrow> run_state \<Rightarrow> run_state" where
  "rule_road_closure e row s =
     (let event_type = str_lower (ln_event_type row);
          impact_level_csv = str_lower (ln_impact_level row);
          description = str_lower (ln_description row);
          route_affected = str_lower (ln_route_affected row);
          sev = default_severity row
      in if str_in ''road closure'' event_type
            \<or> any_keyword_in (ROAD_CRITICAL_KEYWORDS @ ROAD_MEDIUM_KEYWORDS) description then
           (let final_severity =
                  (if any_keyword_in ROAD_CRITICAL_KEYWORDS description
                      \<or> str_in ''critical'' impact_level_csv then ''Critical''
                   else if any_keyword_in ROAD_MEDIUM_KEYWORDS description
                      \<or> str_in ''route affected'' description
                      \<or> str_in ''significant delay'' description then
                     (if sev \<noteq> ''Critical'' then ''Medium'' else sev)
                   else sev)
            in if final_severity \<in> set [''Critical'', ''Medium'', ''Low''] then
                 raise_alert e
                   ([Lit final_severity, Lit '' Logistics Disruption: ''] @ alert_title_base row
                     @ [Lit '' (Route: '',
                        Lit (if route_affected \<noteq> ''none'' then route_affected else ''N/A''),
                        Lit '', Desc: '', Lit description, Lit '')''])
                   ''Local News/Events'' final_severity s
               else s)
         else s)"

text \<open>Rule 4: local festivals and community fairs.\<close>

definition rule_local_event :: "env \<Rightarrow> local_news_row \<Rightarrow> run_state \<Rightarrow> run_state" where
  "rule_local_event e row s =
     (let event_type = str_lower (ln_event_type row)
      in if str_in ''local festival'' event_type \<or> str_in ''community fair'' event_type then
           (let final_severity =
                  (if population_at_least row POP_MEDIUM_THRESHOLD then ''Medium'' else ''Low'')
            in raise_alert e
                 ([Lit final_severity, Lit '' Local Event: ''] @ alert_title_base row
                   @ [Lit '' (Pop: '',
                      (case to_numeric (ln_affected_population_estimate row) of
                         Some affected_population_estimate \<Rightarrow>
                           IntP (py_int affected_population_estimate)
                       | None \<Rightarrow> Lit ''N/A''),
                      Lit '')''])
                 ''Local News/Events'' final_severity s)
         else s)"

text \<open>
  The body of the loop for one row.

  A row outside its active window, or with an unparseable date, is skipped by
  \<open>continue\<close> before anything is written to it.

  Rule 1 (public safety) logs one Critical alert and then executes
  \<^verbatim>\<open>inventory_df.loc[index, 'alert_id'] = ",".join(current_alerts_for_row)\<close>.
  The module \<open>local_news_engine.py\<close> defines no name \<open>inventory_df\<close> (the data frame
  of this engine is \<open>local_news_df\<close>), so the statement raises \<open>NameError\<close> and the
  \<open>continue\<close> after it is not reached.
\<close>

definition local_news_row_step ::
  "env \<Rightarrow> instant \<Rightarrow> local_news_row \<Rightarrow> run_state \<Rightarrow> error + (local_news_row \<times> run_state)" where
  "local_news_row_step e current_time row s =
     (let description = str_lower (ln_description row);
          event_start_date = ln_event_start_date row;
          event_end_date = ln_event_end_date row
      in if event_start_date = None \<or> event_end_date = None
            \<or> is_after event_start_date (Some current_time)
            \<or> is_after (Some current_time) event_end_date then
           Inr (row, s)
         else
           (let s0 = s\<lparr>current_alerts_for_row := []\<rparr>
            in if any_keyword_in PUBLIC_SAFETY_KEYWORDS description then
                 (let s1 = raise_alert e
                             ([Lit ''Critical Public Safety Event: ''] @ alert_title_base row
                               @ [Lit '' ('', Lit description, Lit '')''])
                             ''Local News/Events'' ''Critical'' s0
                  in Inl (NameError ''inventory_df''))
               else
                 (let s2 = rule_weather_alert e row s0;
                      s3 = rule_road_closure e row s2;
                      s4 = rule_local_event e row s3
                  in Inr (row\<lparr>ln_alert_id := link_alert_ids (current_alerts_for_row s4)\<rparr>,
                          s4))))"

fun local_news_rows ::
  "env \<Rightarrow> instant \<Rightarrow> local_news_row list \<Rightarrow> run_state
     \<Rightarrow> error + (local_news_row list \<times> run_state)" where
  "local_news_rows e current_time [] s = Inr ([], s)"
| "local_news_rows e current_time (row # rows) s =
     and_then (local_news_row_step e current_time row s) (\<lambda>(row', s').
     and_then (local_news_rows e current_time rows s') (\<lambda>(rows', s'').
       Inr (row' # rows', s'')))"

text \<open>\<open>local_news_rule_engine(local_news_df, alerts_df)\<close>; \<open>current_time\<close> is the clock
  value read once before the loop. \<open>Inl\<close> is an exception that leaves the function.\<close>

definition local_news_rule_engine ::
  "env \<Rightarrow> instant \<Rightarrow> local_news_row list \<Rightarrow> alert list
     \<Rightarrow> error + (local_news_row list \<times> alert list)" where
  "local_news_rule_engine e current_time local_news_df alerts =
     and_then (local_news_rows e current_time local_news_df (start_run alerts)) (\<lambda>(df, s).
       Inr (df, alerts_df s))"

section \<open>The dashboard\<close>

text \<open>
  \<open>app.py\<close> reads the alert log, samples it and counts severities. Every row of the log
  is taken to hold a category and a severity, as every record that an engine writes does.

  The random source is a function \<open>rnd\<close>: \<open>rnd k\<close> is the \<open>k\<close>-th number it returns.
  A random selection of \<open>n\<close> rows without replacement (\<open>DataFrame.sample(n=...)\<close>) takes
  \<open>n\<close> times a row at a random position out of the remaining ones; a shuffle
  (\<open>random.shuffle\<close>, \<open>sample(frac=1)\<close>) is the selection of all rows. Every ordered
  selection is the result for some \<open>rnd\<close>.
\<close>

fun sample_n :: "(nat \<Rightarrow> nat) \<Rightarrow> nat \<Rightarrow> nat \<Rightarrow> 'a list \<Rightarrow> 'a list" where
  "sample_n rnd k 0 xs = []"
| "sample_n rnd k (Suc n) xs =
     (if xs = [] then []
      else (let i = rnd k mod length xs
            in xs ! i # sample_n rnd (Suc k) n (take i xs @ drop (Suc i) xs)))"

text \<open>\<open>Series.unique().tolist()\<close>: the distinct values in order of first appearance.\<close>

definition unique :: "'a list \<Rightarrow> 'a list" where
  "unique xs = rev (remdups (rev xs))"

text \<open>The loop over the shuffled categories; \<open>k\<close> is the number of random numbers used
  so far.\<close>

fun sample_categories ::
  "(nat \<Rightarrow> nat) \<Rightarrow> nat \<Rightarrow> alert list \<Rightarrow> nat \<Rightarrow> string list \<Rightarrow> alert list list" where
  "sample_categories rnd k df_raw max_per_category [] = []"
| "sample_categories rnd k df_raw max_per_category (cat # cats) =
     (let category_df = filter (\<lambda>a. category a = cat) df_raw;
          n = min (length category_df) max_per_category
      in sample_n rnd k n category_df
           # sample_categories rnd (k + n) df_raw max_per_category cats)"

text \<open>\<open>process_alerts(df_raw, max_per_category)\<close>.\<close>

definition process_alerts :: "(nat \<Rightarrow> nat) \<Rightarrow> alert list \<Rightarrow> nat \<Rightarrow> alert list" where
  "process_alerts rnd df_raw max_per_category =
     (if df_raw = [] then []
      else
        (let distinct_categories = unique (map category df_raw);
             categories = sample_n rnd 0 (length distinct_categories) distinct_categories;
             processed_alerts =
               sample_categories rnd (length distinct_categories) df_raw max_per_category
                 categories
         in if processed_alerts = [] then []
            else
              (let df_filtered = concat processed_alerts
               in sample_n rnd (length distinct_categories + length df_filtered)
                    (length df_filtered) df_filtered)))"

text \<open>The summary cards: the counts \<open>app.py\<close> computes from the data frame \<open>df_alerts\<close>.\<close>

record summary =
  total_alerts :: nat
  critical_alerts :: nat
  medium_alerts :: nat
  low_alerts :: nat

definition count_severity :: "string \<Rightarrow> alert list \<Rightarrow> nat" where
  "count_severity name df = length (filter (\<lambda>a. str_lower (severity a) = name) df)"

definition summary_counts :: "alert list \<Rightarrow> summary" where
  "summary_counts df_alerts =
     (if df_alerts \<noteq> [] then
        \<lparr>total_alerts = length df_alerts,
         critical_alerts = count_severity ''critical'' df_alerts,
         medium_alerts = count_severity ''medium'' df_alerts,
         low_alerts = count_severity ''low'' df_alerts\<rparr>
      else \<lparr>total_alerts = 0, critical_alerts = 0, medium_alerts = 0, low_alerts = 0\<rparr>)"

text \<open>The summary that the dashboard shows:
  \<^verbatim>\<open>df_alerts = process_alerts(df_raw_alerts, max_per_category=4)\<close>, then the counts over
  \<open>df_alerts\<close>.\<close>

definition dashboard_summary :: "(nat \<Rightarrow> nat) \<Rightarrow> alert list \<Rightarrow> summary" where
  "dashboard_summary rnd df_raw_alerts = summary_counts (process_alerts rnd df_raw_alerts 4)"



section \<open>Band selection as the specification words it\<close>


section \<open>Example inputs\<close>

text \<open>A random source and a clock: the \<open>k\<close>-th UUID has all sixteen bytes equal to \<open>k\<close>,
  the \<open>k\<close>-th reading of the clock is \<open>1000 + k\<close>.\<close>

definition sample_env :: env where
  "sample_env = \<lparr>uuid4 = (\<lambda>k. replicate 16 (of_nat k)), now = (\<lambda>k. 1000 + real k)\<rparr>"







definition example_public_safety_row :: local_news_row where
  "example_public_safety_row =
     \<lparr>ln_event_id = ''EVT-42'', ln_event_type = ''Weather Alert'', ln_region_id = ''Chennai'',
      ln_impact_level = ''high'', ln_description = ''Evacuation ordered after flood warning'',
      ln_affected_population_estimate = Num 800000, ln_route_affected = ''none'',
      ln_event_start_date = Some 100, ln_event_end_date = Some 900, ln_alert_id = None\<rparr>"

text \<open>A random source that always returns \<open>0\<close>, and two alert logs of ten records
  with 4 Critical, 3 Medium, 2 Low and 1 Info record each: in \<open>crowded_log\<close> nine records
  are of one category, in \<open>spread_log\<close> no category has more than four.\<close>

definition first_choice :: "nat \<Rightarrow> nat" where
  "first_choice k = 0"

definition logged :: "string \<Rightarrow> string \<Rightarrow> string \<Rightarrow> alert" where
  "logged aid cat sev =
     \<lparr>alert_id = aid, alert_title = [Lit ''alert''], category = cat, severity = sev,
      timestamp = 0\<rparr>"

definition crowded_log :: "alert list" where
  "crowded_log =
     [logged ''a0'' ''Weather'' ''Critical'', logged ''a1'' ''Weather'' ''Critical'',
      logged ''a2'' ''Weather'' ''Critical'', logged ''a3'' ''Weather'' ''Critical'',
      logged ''a4'' ''Weather'' ''Medium'', logged ''a5'' ''Weather'' ''Medium'',
      logged ''a6'' ''Weather'' ''Medium'', logged ''a7'' ''Weather'' ''Low'',
      logged ''a8'' ''Weather'' ''Low'', logged ''a9'' ''Logistics/Supply Chain'' ''Info'']"

definition spread_log :: "alert list" where
  "spread_log =
     [logged ''b0'' ''Weather'' ''Critical'', logged ''b1'' ''Weather'' ''CRITICAL'',
      logged ''b2'' ''Inventory'' ''Critical'', logged ''b3'' ''Inventory'' ''critical'',
      logged ''b4'' ''Weather'' ''Medium'', logged ''b5'' ''Inventory'' ''Medium'',
      logged ''b6'' ''E-commerce'' ''Medium'', logged ''b7'' ''Weather'' ''Low'',
      logged ''b8'' ''E-commerce'' ''Low'', logged ''b9'' ''Logistics/Supply Chain'' ''Info'']"

section \<open>Properties of the alert log\<close>

lemma log_alert_append:
  "fst (log_alert e n df title cat sev) = df @ [new_record e n (title, cat, sev)]"
  by (simp add: log_alert_def new_record_def Let_def)

lemma log_alert_id:
  "snd (log_alert e n df title cat sev) = generate_alert_id (uuid4 e n)"
  by (simp add: log_alert_def Let_def)

text \<open>
  Claim C3. Appending preserves the loaded log: after any sequence of \<open>log_alert\<close> calls
  the log is the prior log \<open>L\<close>, every record unaltered and in its original order,
  followed by one new record per call, in call order.
\<close>

theorem log_append_preserves_existing:
  "log_alerts e n L reqs = L @ map (\<lambda>(k, req). new_record e k req) (zip [n ..< n + length reqs] reqs)"
proof (induction reqs arbitrary: n L)
  case Nil
  show ?case by simp
next
  case (Cons req reqs)
  obtain title cat sev where req: "req = (title, cat, sev)"
    by (cases req) auto
  have up: "[n ..< n + Suc (length reqs)] = n # [Suc n ..< Suc n + length reqs]"
    by (simp add: upt_conv_Cons del: upt_Suc)
  show ?case
    using Cons.IH [of "Suc n"] up
    by (simp add: req log_alert_append del: upt_Suc)
qed

section \<open>Properties of the run state\<close>







lemma appended_reset:
  "appended (s\<lparr>current_alerts_for_row := ids\<rparr>) s' = appended s s'"
  by (simp add: appended_def)




section \<open>Exclusive banding in the e-commerce engine\<close>



section \<open>Missing data in the supplier engine\<close>



section \<open>Critical statuses in the logistics engine\<close>











section \<open>Rows with several alerts in the inventory engine\<close>












section \<open>The public-safety rule of the local news engine\<close>

text \<open>
  Claim C2 says that an active row whose description holds a public-safety keyword gets
  exactly one Critical alert and that the engine goes on to the next row. The engine
  raises \<open>NameError\<close> instead: the example row is inside its window (the clock reads
  \<open>500\<close>, the window is \<open>100\<close> to \<open>900\<close>) and its description holds
  \<open>evacuation\<close>; the run ends with the exception, whatever the log was, and returns
  neither the rows nor the log.
\<close>

theorem public_safety_row_raises_name_error:
  "local_news_rule_engine sample_env 500 [example_public_safety_row] []
     = Inl (NameError ''inventory_df'')"
  by (simp add: local_news_rule_engine_def local_news_row_step_def and_then_def Let_def
        example_public_safety_row_def is_after_def any_keyword_in_def
        PUBLIC_SAFETY_KEYWORDS_def str_lower_def lower_char_def)

section \<open>The dashboard sampler\<close>

lemma sample_n_sub: "mset (sample_n rnd k n xs) \<subseteq># mset xs"
proof (induction n arbitrary: k xs)
  case 0
  show ?case by simp
next
  case (Suc n)
  show ?case
  proof (cases "xs = []")
    case True
    then show ?thesis by simp
  next
    case False
    define i where "i = rnd k mod length xs"
    have i: "i < length xs"
      using False by (simp add: i_def)
    have split: "mset xs = add_mset (xs ! i) (mset (take i xs @ drop (Suc i) xs))"
      using id_take_nth_drop [OF i] by (metis mset.simps(2) mset_append union_mset_add_mset_right)
    have "mset (sample_n rnd (Suc k) n (take i xs @ drop (Suc i) xs))
            \<subseteq># mset (take i xs @ drop (Suc i) xs)"
      by (rule Suc.IH)
    then show ?thesis
      using False unfolding split by (simp add: Let_def i_def [symmetric])
  qed
qed

lemma sample_n_length: "length (sample_n rnd k n xs) = min n (length xs)"
proof (induction n arbitrary: k xs)
  case 0
  show ?case by simp
next
  case (Suc n)
  show ?case
  proof (cases "xs = []")
    case True
    then show ?thesis by simp
  next
    case False
    define i where "i = rnd k mod length xs"
    have i: "i < length xs"
      using False by (simp add: i_def)
    have "length (take i xs @ drop (Suc i) xs) = length xs - 1"
      using i by simp
    then show ?thesis
      using False i by (simp add: Let_def i_def [symmetric] Suc.IH)
  qed
qed

lemma sample_n_all:
  assumes "length xs \<le> n"
  shows "mset (sample_n rnd k n xs) = mset xs"
proof -
  obtain C where C: "mset xs = mset (sample_n rnd k n xs) + C"
    using sample_n_sub [of rnd k n xs] by (auto simp: mset_subset_eq_exists_conv)
  have "size (mset xs) = size (mset (sample_n rnd k n xs)) + size C"
    by (subst C) simp
  then have "size C = 0"
    using assms by (simp add: sample_n_length)
  then show ?thesis
    using C by simp
qed

lemma sample_n_set: "set (sample_n rnd k n xs) \<subseteq> set xs"
  using set_mset_mono [OF sample_n_sub [of rnd k n xs]] by simp

lemma unique_distinct: "distinct (unique xs)"
  by (simp add: unique_def)

lemma unique_set: "set (unique xs) = set xs"
  by (simp add: unique_def)

lemma filter_category_split:
  assumes "cat \<notin> set cats"
  shows "filter_mset (\<lambda>a. category a \<in> set (cat # cats)) M =
           filter_mset (\<lambda>a. category a = cat) M + filter_mset (\<lambda>a. category a \<in> set cats) M"
  using assms by (intro multiset_eqI) auto

lemma sample_categories_sub:
  assumes "distinct cats"
  shows "mset (concat (sample_categories rnd k df_raw m cats))
           \<subseteq># filter_mset (\<lambda>a. category a \<in> set cats) (mset df_raw)"
  using assms
proof (induction cats arbitrary: k)
  case Nil
  show ?case by simp
next
  case (Cons cat cats)
  have notin: "cat \<notin> set cats" and d: "distinct cats"
    using Cons.prems by auto
  let ?category_df = "filter (\<lambda>a. category a = cat) df_raw"
  let ?n = "min (length ?category_df) m"
  have head: "mset (sample_n rnd k ?n ?category_df)
                \<subseteq># filter_mset (\<lambda>a. category a = cat) (mset df_raw)"
    using sample_n_sub [of rnd k ?n ?category_df] by simp
  have tail: "mset (concat (sample_categories rnd (k + ?n) df_raw m cats))
                \<subseteq># filter_mset (\<lambda>a. category a \<in> set cats) (mset df_raw)"
    by (rule Cons.IH [OF d])
  have "mset (concat (sample_categories rnd k df_raw m (cat # cats)))
          = mset (sample_n rnd k ?n ?category_df)
            + mset (concat (sample_categories rnd (k + ?n) df_raw m cats))"
    by (simp add: Let_def)
  also have "\<dots> \<subseteq># filter_mset (\<lambda>a. category a = cat) (mset df_raw)
                   + filter_mset (\<lambda>a. category a \<in> set cats) (mset df_raw)"
    using head tail by (rule subset_mset.add_mono)
  finally show ?case
    by (simp only: filter_category_split [OF notin])
qed

lemma sample_categories_count:
  assumes "distinct cats"
  shows "length (filter (\<lambda>a. category a = c) (concat (sample_categories rnd k df_raw m cats)))
           = (if c \<in> set cats then min (length (filter (\<lambda>a. category a = c) df_raw)) m else 0)"
  using assms
proof (induction cats arbitrary: k)
  case Nil
  show ?case by simp
next
  case (Cons cat cats)
  have notin: "cat \<notin> set cats" and d: "distinct cats"
    using Cons.prems by auto
  define category_df where "category_df = filter (\<lambda>a. category a = cat) df_raw"
  define n where "n = min (length category_df) m"
  define S where "S = sample_n rnd k n category_df"
  define T where "T = concat (sample_categories rnd (k + n) df_raw m cats)"
  have "set S \<subseteq> set category_df"
    unfolding S_def by (rule sample_n_set)
  then have all_cat: "\<forall>a \<in> set S. category a = cat"
    unfolding category_df_def by auto
  have head_eq: "filter (\<lambda>a. category a = cat) S = S"
    using all_cat by (simp add: filter_id_conv)
  have head_ne: "c \<noteq> cat \<Longrightarrow> filter (\<lambda>a. category a = c) S = []"
    using all_cat by (simp add: filter_empty_conv)
  have len: "length S = n"
    unfolding S_def n_def by (simp add: sample_n_length)
  have tail: "length (filter (\<lambda>a. category a = c) T)
      = (if c \<in> set cats then min (length (filter (\<lambda>a. category a = c) df_raw)) m else 0)"
    unfolding T_def by (rule Cons.IH [OF d])
  have unfold: "concat (sample_categories rnd k df_raw m (cat # cats)) = S @ T"
    by (simp add: Let_def S_def T_def n_def category_df_def)
  show ?case
  proof (cases "c = cat")
    case True
    have "length (filter (\<lambda>a. category a = c) (S @ T)) = n"
      using True notin head_eq len tail by simp
    then show ?thesis
      unfolding unfold using True by (simp add: n_def category_df_def)
  next
    case False
    have "length (filter (\<lambda>a. category a = c) (S @ T))
            = length (filter (\<lambda>a. category a = c) T)"
      using head_ne [OF False] by simp
    then show ?thesis
      unfolding unfold using False tail by simp
  qed
qed

lemma mset_eq_filter_length:
  assumes "mset xs = mset ys"
  shows "length (filter P xs) = length (filter P ys)"
proof -
  have "mset (filter P xs) = mset (filter P ys)"
    using assms by simp
  then show ?thesis
    by (rule mset_eq_length)
qed

lemma process_alerts_shuffle:
  "\<exists>cats. distinct cats \<and> set cats = set (map category df_raw)
     \<and> mset (process_alerts rnd df_raw m)
         = mset (concat (sample_categories rnd (length cats) df_raw m cats))"
proof -
  let ?u = "unique (map category df_raw)"
  let ?cats = "sample_n rnd 0 (length ?u) ?u"
  have perm: "mset ?cats = mset ?u"
    by (simp add: sample_n_all)
  have dist: "distinct ?cats"
    using perm unique_distinct [of "map category df_raw"] by (metis mset_eq_imp_distinct_iff)
  have set_eq: "set ?cats = set (map category df_raw)"
    using perm unique_set [of "map category df_raw"] by (metis mset_eq_setD)
  have len: "length ?cats = length ?u"
    by (simp add: sample_n_length)
  let ?F = "concat (sample_categories rnd (length ?u) df_raw m ?cats)"
  have res: "mset (process_alerts rnd df_raw m) = mset ?F"
  proof (cases "df_raw = []")
    case True
    then show ?thesis
      by (simp add: process_alerts_def unique_def)
  next
    case False
    show ?thesis
    proof (cases "sample_categories rnd (length ?u) df_raw m ?cats = []")
      case True
      then show ?thesis
        using False by (simp add: process_alerts_def Let_def)
    next
      case nonempty: False
      then show ?thesis
        using False by (simp add: process_alerts_def Let_def sample_n_all)
    qed
  qed
  show ?thesis
    using dist set_eq res len by (intro exI [of _ ?cats]) simp
qed

text \<open>
  Claim C10. Whatever the random source returns, the sample taken with
  \<open>max_per_category = 4\<close> holds at most four records of each category, exactly the
  smaller of four and the number of records the category has in the input, and it is a
  sub-multiset of the input: no record that is not in the input, and none more often than
  the input has it.
\<close>

theorem sampler_bound:
  "length (filter (\<lambda>a. category a = c) (process_alerts rnd df_raw 4)) \<le> 4
   \<and> length (filter (\<lambda>a. category a = c) (process_alerts rnd df_raw 4))
       = min (length (filter (\<lambda>a. category a = c) df_raw)) 4
   \<and> mset (process_alerts rnd df_raw 4) \<subseteq># mset df_raw"
proof -
  obtain cats where cats: "distinct cats" "set cats = set (map category df_raw)"
    "mset (process_alerts rnd df_raw 4)
       = mset (concat (sample_categories rnd (length cats) df_raw 4 cats))"
    using process_alerts_shuffle [of df_raw rnd 4] by blast
  have count: "length (filter (\<lambda>a. category a = c) (process_alerts rnd df_raw 4))
       = min (length (filter (\<lambda>a. category a = c) df_raw)) 4"
  proof (cases "c \<in> set cats")
    case True
    then show ?thesis
      using mset_eq_filter_length [OF cats(3)] sample_categories_count [OF cats(1)] by simp
  next
    case False
    then have "filter (\<lambda>a. category a = c) df_raw = []"
      using cats(2) by (auto simp: filter_empty_conv)
    then show ?thesis
      using False mset_eq_filter_length [OF cats(3)] sample_categories_count [OF cats(1)]
      by simp
  qed
  have "mset (process_alerts rnd df_raw 4)
          \<subseteq># filter_mset (\<lambda>a. category a \<in> set cats) (mset df_raw)"
    unfolding cats(3) by (rule sample_categories_sub [OF cats(1)])
  then have sub: "mset (process_alerts rnd df_raw 4) \<subseteq># mset df_raw"
    by (meson multiset_filter_subset subset_mset.order_trans)
  show ?thesis
    using count sub by simp
qed

section \<open>The summary cards of the dashboard\<close>

lemma sample_categories_all:
  assumes "distinct cats"
      and "\<forall>c. length (filter (\<lambda>a. category a = c) df_raw) \<le> m"
  shows "mset (concat (sample_categories rnd k df_raw m cats))
           = filter_mset (\<lambda>a. category a \<in> set cats) (mset df_raw)"
  using assms(1)
proof (induction cats arbitrary: k)
  case Nil
  show ?case by simp
next
  case (Cons cat cats)
  have notin: "cat \<notin> set cats" and d: "distinct cats"
    using Cons.prems by auto
  define category_df where "category_df = filter (\<lambda>a. category a = cat) df_raw"
  define n where "n = min (length category_df) m"
  have n: "length category_df \<le> n"
    using assms(2) by (simp add: n_def category_df_def)
  have head: "mset (sample_n rnd k n category_df)
                = filter_mset (\<lambda>a. category a = cat) (mset df_raw)"
    using sample_n_all [OF n, of rnd k] by (simp add: category_df_def)
  have tail: "mset (concat (sample_categories rnd (k + n) df_raw m cats))
                = filter_mset (\<lambda>a. category a \<in> set cats) (mset df_raw)"
    by (rule Cons.IH [OF d])
  have "mset (concat (sample_categories rnd k df_raw m (cat # cats)))
          = mset (sample_n rnd k n category_df)
            + mset (concat (sample_categories rnd (k + n) df_raw m cats))"
    by (simp add: Let_def n_def category_df_def)
  then show ?case
    by (simp only: head tail filter_category_split [OF notin])
qed

lemma process_alerts_keeps_all:
  assumes "\<forall>c. length (filter (\<lambda>a. category a = c) df_raw) \<le> m"
  shows "mset (process_alerts rnd df_raw m) = mset df_raw"
proof -
  obtain cats where cats: "distinct cats" "set cats = set (map category df_raw)"
    "mset (process_alerts rnd df_raw m)
       = mset (concat (sample_categories rnd (length cats) df_raw m cats))"
    using process_alerts_shuffle [of df_raw rnd m] by blast
  have "filter_mset (\<lambda>a. category a \<in> set cats) (mset df_raw) = mset df_raw"
    using cats(2) by (simp add: filter_mset_eq_conv)
  then show ?thesis
    using cats(3) sample_categories_all [OF cats(1) assms] by simp
qed

lemma summary_counts_mset:
  assumes "mset xs = mset ys"
  shows "summary_counts xs = summary_counts ys"
proof -
  have len: "length xs = length ys"
    using assms by (rule mset_eq_length)
  have nil: "xs = [] \<longleftrightarrow> ys = []"
    using len by auto
  show ?thesis
    using mset_eq_filter_length [OF assms] len nil
    by (simp add: summary_counts_def count_severity_def)
qed

text \<open>
  Claim C8 says that the summary is computed over the full, unsampled log. The dashboard
  computes it over the sample: \<open>crowded_log\<close> holds 4 Critical, 3 Medium, 2 Low and
  1 Info record, the counts over the full log are 10, 4, 3 and 2, and the dashboard shows
  5, 4, 0 and 0.
\<close>

theorem summary_not_over_full_set:
  "summary_counts crowded_log =
     \<lparr>total_alerts = 10, critical_alerts = 4, medium_alerts = 3, low_alerts = 2\<rparr>
   \<and> count_severity ''info'' crowded_log = 1
   \<and> dashboard_summary first_choice crowded_log =
       \<lparr>total_alerts = 5, critical_alerts = 4, medium_alerts = 0, low_alerts = 0\<rparr>"
  by code_simp


text \<open>
  Claim C8 as amended. The summary is computed over the sampled subset, at most four
  records of each category. For a log of 4 Critical, 3 Medium, 2 Low and 1 Info record
  in which no category has more than four records, the sample keeps every record and the
  dashboard reports total 10, critical 4, medium 3 and low 2, whatever the random source
  returns; severities are compared in lower case, and the Info record is in none of the
  three buckets.
\<close>

theorem summary_over_sampled_subset:
  assumes "\<forall>c. length (filter (\<lambda>a. category a = c) df_raw_alerts) \<le> 4"
      and "length df_raw_alerts = 10"
      and "count_severity ''critical'' df_raw_alerts = 4"
      and "count_severity ''medium'' df_raw_alerts = 3"
      and "count_severity ''low'' df_raw_alerts = 2"
      and "count_severity ''info'' df_raw_alerts = 1"
  shows "dashboard_summary rnd df_raw_alerts = summary_counts (process_alerts rnd df_raw_alerts 4)
     \<and> dashboard_summary rnd df_raw_alerts =
         \<lparr>total_alerts = 10, critical_alerts = 4, medium_alerts = 3, low_alerts = 2\<rparr>"
proof -
  have "mset (process_alerts rnd df_raw_alerts 4) = mset df_raw_alerts"
    using assms(1) by (rule process_alerts_keeps_all)
  then have "dashboard_summary rnd df_raw_alerts = summary_counts df_raw_alerts"
    unfolding dashboard_summary_def by (rule summary_counts_mset)
  moreover have "df_raw_alerts \<noteq> []"
    using assms(2) by auto
  ultimately show ?thesis
    using assms(2-5) by (simp add: summary_counts_def dashboard_summary_def)
qed

lemma spread_log_categories:
  "\<forall>c. length (filter (\<lambda>a. category a = c) spread_log) \<le> 4"
proof
  fix c
  have cats: "map category spread_log =
      [''Weather'', ''Weather'', ''Inventory'', ''Inventory'', ''Weather'', ''Inventory'',
       ''E-commerce'', ''Weather'', ''E-commerce'', ''Logistics/Supply Chain'']"
    by (simp add: spread_log_def logged_def)
  have "length (filter (\<lambda>a. category a = c) spread_log)
          = length (filter (\<lambda>x. x = c) (map category spread_log))"
    by (simp add: filter_map comp_def)
  also have "\<dots> \<le> 4"
    unfolding cats
    by (cases "c = ''Weather''"; cases "c = ''Inventory''"; cases "c = ''E-commerce''";
        cases "c = ''Logistics/Supply Chain''") simp_all
  finally show "length (filter (\<lambda>a. category a = c) spread_log) \<le> 4" .
qed

lemma spread_log_counts:
  "length spread_log = 10 \<and> count_severity ''critical'' spread_log = 4
   \<and> count_severity ''medium'' spread_log = 3 \<and> count_severity ''low'' spread_log = 2
   \<and> count_severity ''info'' spread_log = 1"
  by code_simp

theorem summary_over_sampled_subset_witness:
  "(\<forall>c. length (filter (\<lambda>a. category a = c) spread_log) \<le> 4)
   \<and> length spread_log = 10 \<and> count_severity ''critical'' spread_log = 4
   \<and> count_severity ''medium'' spread_log = 3 \<and> count_severity ''low'' spread_log = 2
   \<and> count_severity ''info'' spread_log = 1
   \<and> dashboard_summary first_choice spread_log =
         \<lparr>total_alerts = 10, critical_alerts = 4, medium_alerts = 3, low_alerts = 2\<rparr>"
proof -
  note c = spread_log_counts
  have "dashboard_summary first_choice spread_log =
         \<lparr>total_alerts = 10, critical_alerts = 4, medium_alerts = 3, low_alerts = 2\<rparr>"
    using summary_over_sampled_subset [OF spread_log_categories, of first_choice] c
    by blast
  then show ?thesis
    using spread_log_categories c by blast
qed

end
